theory Spec2Isabelle
  imports Complex_Main
begin

section \<open>Common data: bounded deques and Python errors\<close>

text \<open>
  The pipeline stages keep their histories in \<^verbatim>\<open>collections.deque(maxlen=n)\<close>.
  A bounded deque is its bound together with its items, oldest first.  Appending puts
  the new item at the right end and, when the bound is then exceeded, drops the item at
  the left end (so a deque of bound 0 stays empty).

  A Python float is modelled as the real number it stands for.
\<close>

record 'a deque =
  maxlen :: nat
  items :: "'a list"

definition new_deque :: "nat \<Rightarrow> 'a deque" where
  "new_deque n = \<lparr>maxlen = n, items = []\<rparr>"

definition deque_append :: "'a deque \<Rightarrow> 'a \<Rightarrow> 'a deque" where
  "deque_append d x =
     (let ys = items d @ [x]
      in d\<lparr>items := (if length ys > maxlen d then tl ys else ys)\<rparr>)"

definition deque_clear :: "'a deque \<Rightarrow> 'a deque" where
  "deque_clear d = d\<lparr>items := []\<rparr>"

datatype py_error = RuntimeError | IndexError | ValueError | ZeroDivisionError

section \<open>ConfidenceFilter (src/recognition/confidence\_filter.py)\<close>

record confidence_filter =
  threshold :: real
  smoothing :: real
  history :: "(string \<times> real) deque"
  last_prediction :: "string option"
  last_confidence :: real

definition ConfidenceFilter :: "real \<Rightarrow> real \<Rightarrow> confidence_filter" where
  "ConfidenceFilter th sm =
     \<lparr>threshold = th, smoothing = sm, history = new_deque 5,
      last_prediction = None, last_confidence = 0\<rparr>"

text \<open>
  The filter computes with the confidence it is given, in the floating-point type of
  that confidence.  \<^verbatim>\<open>process_frame\<close> passes the \<^verbatim>\<open>numpy.float32\<close> that the classifier
  returns: the products and the sum of the blend are then rounded float32 operations,
  and in \<^verbatim>\<open>smoothed_confidence < self.threshold\<close> the Python float threshold is
  converted to float32 before the two are compared (NumPy 2); with a Python float
  confidence the operations are those of doubles and the threshold is compared as it
  is.  These operations belong to the runtime, not to the repository, and are
  parameters of the model: \<open>fmul\<close>, \<open>fadd\<close> and \<open>fsub\<close> are the product, sum
  and difference as the runtime rounds them, \<open>as_confidence\<close> is the conversion of the
  threshold to the type of the smoothed confidence.  \<open>exact_ops\<close> are the operations
  where nothing is rounded, which is how every floating-point type behaves on operands
  whose exact results it represents.
\<close>

record float_ops =
  fmul :: "real \<Rightarrow> real \<Rightarrow> real"
  fadd :: "real \<Rightarrow> real \<Rightarrow> real"
  fsub :: "real \<Rightarrow> real \<Rightarrow> real"
  as_confidence :: "real \<Rightarrow> real"

definition exact_ops :: float_ops where
  "exact_ops = \<lparr>fmul = (*), fadd = (+), fsub = (-), as_confidence = (\<lambda>x. x)\<rparr>"

definition smooth_confidence ::
  "float_ops \<Rightarrow> confidence_filter \<Rightarrow> string \<Rightarrow> real \<Rightarrow> real" where
  "smooth_confidence fl cf prediction confidence =
     (if last_prediction cf = Some prediction
      then fadd fl (fmul fl (smoothing cf) confidence)
                   (fmul fl (fsub fl 1 (smoothing cf)) (last_confidence cf))
      else confidence)"

text \<open>\<^verbatim>\<open>list(self.history)[-3:]\<close> is the last three items (all of them when there are fewer).\<close>

definition is_stable :: "confidence_filter \<Rightarrow> string \<Rightarrow> bool" where
  "is_stable cf prediction =
     (if length (items (history cf)) < 3 then True
      else
        let recent = drop (length (items (history cf)) - 3) (items (history cf));
            count = length (filter (\<lambda>(p, _). p = prediction) recent)
        in count \<ge> 2)"

text \<open>
  \<^verbatim>\<open>filter\<close> mutates the object and returns the accepted label or \<^verbatim>\<open>None\<close>; the
  model returns the result together with the updated object.
\<close>

definition filter_conf ::
  "float_ops \<Rightarrow> confidence_filter \<Rightarrow> string \<Rightarrow> real
     \<Rightarrow> string option \<times> confidence_filter" where
  "filter_conf fl cf prediction confidence =
     (let smoothed_confidence = smooth_confidence fl cf prediction confidence;
          cf1 = cf\<lparr>history := deque_append (history cf) (prediction, smoothed_confidence)\<rparr>
      in if smoothed_confidence < as_confidence fl (threshold cf1) then (None, cf1)
         else if \<not> is_stable cf1 prediction then (None, cf1)
         else (Some prediction,
               cf1\<lparr>last_prediction := Some prediction,
                    last_confidence := smoothed_confidence\<rparr>))"

definition reset_conf :: "confidence_filter \<Rightarrow> confidence_filter" where
  "reset_conf cf =
     cf\<lparr>history := deque_clear (history cf), last_prediction := None, last_confidence := 0\<rparr>"


section \<open>GestureSmoother (src/recognition/gesture\_smoother.py)\<close>

text \<open>
  An entry of the output history is (label, confidence, time).  \<^verbatim>\<open>update\<close> reads the
  clock once (\<^verbatim>\<open>time.time()\<close>); the model takes that reading as the argument
  \<open>current_time\<close>.
\<close>

record gesture_smoother =
  min_duration :: real
  cooldown :: real
  current_gesture :: "string option"
  gesture_start_time :: real
  last_output_time :: real
  output_history :: "(string \<times> real \<times> real) deque"

definition GestureSmoother :: "real \<Rightarrow> real \<Rightarrow> gesture_smoother" where
  "GestureSmoother md cd =
     \<lparr>min_duration = md, cooldown = cd, current_gesture = None,
      gesture_start_time = 0, last_output_time = 0, output_history = new_deque 10\<rparr>"

definition update ::
  "gesture_smoother \<Rightarrow> string \<Rightarrow> real \<Rightarrow> real \<Rightarrow> (string \<times> real) option \<times> gesture_smoother" where
  "update s prediction confidence current_time =
     (if Some prediction \<noteq> current_gesture s
      then (None, s\<lparr>current_gesture := Some prediction, gesture_start_time := current_time\<rparr>)
      else
        let duration = current_time - gesture_start_time s
        in if duration < min_duration s then (None, s)
           else if current_time - last_output_time s < cooldown s then (None, s)
           else if items (output_history s) \<noteq> []
                   \<and> fst (last (items (output_history s))) = prediction then (None, s)
           else (Some (prediction, confidence),
                 s\<lparr>last_output_time := current_time,
                   output_history :=
                     deque_append (output_history s) (prediction, confidence, current_time)\<rparr>))"

definition reset :: "gesture_smoother \<Rightarrow> gesture_smoother" where
  "reset s =
     s\<lparr>current_gesture := None, gesture_start_time := 0,
       output_history := deque_clear (output_history s)\<rparr>"

text \<open>
  A session of \<^verbatim>\<open>update\<close> calls: each input is (label, confidence, clock reading).
  \<open>final\<close> is the object after the calls, \<open>outputs\<close> the value each call returned.
\<close>

type_synonym observation = "string \<times> real \<times> real"

definition obs_label :: "observation \<Rightarrow> string" where
  "obs_label x = fst x"

definition obs_time :: "observation \<Rightarrow> real" where
  "obs_time x = snd (snd x)"

definition step :: "gesture_smoother \<Rightarrow> observation \<Rightarrow> (string \<times> real) option \<times> gesture_smoother" where
  "step s x = update s (fst x) (fst (snd x)) (snd (snd x))"

fun final :: "gesture_smoother \<Rightarrow> observation list \<Rightarrow> gesture_smoother" where
  "final s [] = s"
| "final s (x # xs) = final (snd (step s x)) xs"

fun outputs :: "gesture_smoother \<Rightarrow> observation list \<Rightarrow> (string \<times> real) option list" where
  "outputs s [] = []"
| "outputs s (x # xs) = fst (step s x) # outputs (snd (step s x)) xs"

text \<open>
  For a session \<open>zs\<close> of a fresh smoother: the object before the call of index \<open>k\<close>
  and the value that call returns.  The two invariants say what the object knows then:
  the current gesture is the label of the previous call and its start time is the time
  of the first call of the current run of equal labels; the last output time and the
  last entry of the output history belong to the latest call that emitted.
\<close>

definition state_before :: "real \<Rightarrow> real \<Rightarrow> observation list \<Rightarrow> nat \<Rightarrow> gesture_smoother" where
  "state_before md cd zs k = final (GestureSmoother md cd) (take k zs)"

definition output_at :: "real \<Rightarrow> real \<Rightarrow> observation list \<Rightarrow> nat \<Rightarrow> (string \<times> real) option" where
  "output_at md cd zs k = fst (step (state_before md cd zs k) (zs ! k))"

definition episode_inv :: "real \<Rightarrow> real \<Rightarrow> observation list \<Rightarrow> nat \<Rightarrow> bool" where
  "episode_inv md cd zs k =
     ((k = 0 \<and> current_gesture (state_before md cd zs k) = None)
      \<or> (0 < k
         \<and> current_gesture (state_before md cd zs k) = Some (obs_label (zs ! (k - 1)))
         \<and> (\<exists>j<k. gesture_start_time (state_before md cd zs k) = obs_time (zs ! j)
                  \<and> (\<forall>m. j \<le> m \<and> m < k \<longrightarrow> obs_label (zs ! m) = obs_label (zs ! (k - 1)))
                  \<and> (j = 0 \<or> obs_label (zs ! (j - 1)) \<noteq> obs_label (zs ! j)))))"

definition emission_inv :: "real \<Rightarrow> real \<Rightarrow> observation list \<Rightarrow> nat \<Rightarrow> bool" where
  "emission_inv md cd zs k =
     (maxlen (output_history (state_before md cd zs k)) = 10
      \<and> ((items (output_history (state_before md cd zs k)) = []
           \<and> (\<forall>m<k. output_at md cd zs m = None))
         \<or> (\<exists>i<k. output_at md cd zs i \<noteq> None
                  \<and> items (output_history (state_before md cd zs k)) \<noteq> []
                  \<and> fst (last (items (output_history (state_before md cd zs k))))
                      = obs_label (zs ! i)
                  \<and> last_output_time (state_before md cd zs k) = obs_time (zs ! i)
                  \<and> (\<forall>m. i < m \<and> m < k \<longrightarrow> output_at md cd zs m = None))))"

section \<open>TemporalBuffer (src/vision/temporal\_buffer.py)\<close>

text \<open>
  A landmark vector is a one-dimensional array, modelled as the list of its values;
  \<^verbatim>\<open>landmarks.shape[0]\<close> is its length.  \<^verbatim>\<open>deque(maxlen=window_size)\<close> rejects a negative
  bound, so the window size of a constructed buffer is a natural number.
\<close>

record temporal_buffer =
  window_size :: nat
  buffer :: "real list deque"
  feature_size :: "nat option"

definition TemporalBuffer :: "nat \<Rightarrow> temporal_buffer" where
  "TemporalBuffer n = \<lparr>window_size = n, buffer = new_deque n, feature_size = None\<rparr>"

definition add :: "temporal_buffer \<Rightarrow> real list \<Rightarrow> temporal_buffer" where
  "add tb landmarks =
     (let tb1 = (if feature_size tb = None
                 then tb\<lparr>feature_size := Some (length landmarks)\<rparr> else tb)
      in tb1\<lparr>buffer := deque_append (buffer tb1) landmarks\<rparr>)"

text \<open>
  \<^verbatim>\<open>np.array(rows)\<close> builds a matrix from rows of one length, and raises
  \<^verbatim>\<open>ValueError\<close> (inhomogeneous shape) when the rows differ in length.
\<close>

definition np_array :: "real list list \<Rightarrow> py_error + real list list" where
  "np_array rows =
     (if list_all (\<lambda>r. length r = length (hd rows)) rows then Inr rows else Inl ValueError)"

text \<open>
  \<^verbatim>\<open>get_sequence\<close> assigns nothing to the object: it is a function of the object alone,
  and \<^verbatim>\<open>list(self.buffer)\<close> is a fresh copy of the items.
\<close>

definition get_sequence :: "temporal_buffer \<Rightarrow> py_error + real list list option" where
  "get_sequence tb =
     (if length (items (buffer tb)) < window_size tb then Inr None
      else (case np_array (items (buffer tb)) of
              Inl e \<Rightarrow> Inl e
            | Inr a \<Rightarrow> Inr (Some a)))"

text \<open>The object after a sequence of \<^verbatim>\<open>add\<close> calls.\<close>

definition add_all :: "temporal_buffer \<Rightarrow> real list list \<Rightarrow> temporal_buffer" where
  "add_all tb vs = foldl add tb vs"

text \<open>
  The window of the specification, written from its words: the push of a vector whose
  length differs from the recorded feature size fails.
\<close>

datatype window_error = FeatureSizeMismatch

definition push_spec :: "temporal_buffer \<Rightarrow> real list \<Rightarrow> window_error + temporal_buffer" where
  "push_spec tb v =
     (case feature_size tb of
        None \<Rightarrow> Inr (tb\<lparr>feature_size := Some (length v), buffer := deque_append (buffer tb) v\<rparr>)
      | Some n \<Rightarrow> (if length v \<noteq> n then Inl FeatureSizeMismatch
                   else Inr (tb\<lparr>buffer := deque_append (buffer tb) v\<rparr>)))"

section \<open>GestureClassifier (src/recognition/classifier.py)\<close>

text \<open>
  The ONNX session is the external inference backend: it maps a sequence to the raw
  output row \<^verbatim>\<open>outputs[0][0]\<close>.  No session is \<open>None\<close>.  The conversions to
  \<^verbatim>\<open>float32\<close> and back and the added batch dimension do not change the values as
  modelled.
\<close>

record classifier =
  session :: "(real list list \<Rightarrow> real list) option"
  labels :: "string list"

text \<open>\<^verbatim>\<open>np.isclose(a, b)\<close> with its default tolerances \<open>rtol = 1e-5\<close>, \<open>atol = 1e-8\<close>.\<close>

definition isclose :: "real \<Rightarrow> real \<Rightarrow> bool" where
  "isclose a b = (\<bar>a - b\<bar> \<le> 1 / 10 ^ 8 + 1 / 10 ^ 5 * \<bar>b\<bar>)"

text \<open>\<^verbatim>\<open>np.max\<close> of an empty array raises \<^verbatim>\<open>ValueError\<close>.\<close>

definition softmax :: "real list \<Rightarrow> py_error + real list" where
  "softmax x =
     (if x = [] then Inl ValueError
      else let exp_x = map (\<lambda>v. exp (v - Max (set x))) x
           in Inr (map (\<lambda>e. e / sum_list exp_x) exp_x))"

definition normalise :: "real list \<Rightarrow> py_error + real list" where
  "normalise probs = (if \<not> isclose (sum_list probs) 1 then softmax probs else Inr probs)"

text \<open>
  \<^verbatim>\<open>np.argsort(probs)\<close>: the indices of \<open>probs\<close> in ascending order of their values.
  It is modelled as the stable sort (equal values keep their index order); the default
  sort kind of NumPy does not promise an order among equal values.
\<close>

definition argsort :: "real list \<Rightarrow> nat list" where
  "argsort probs = sort_key (\<lambda>i. probs ! i) [0..<length probs]"

text \<open>\<^verbatim>\<open>np.argmax\<close>: the first index of the greatest value (of a non-empty array).\<close>

definition argmax :: "real list \<Rightarrow> nat" where
  "argmax probs = hd (filter (\<lambda>i. probs ! i = Max (set probs)) [0..<length probs])"

text \<open>The Python slice \<^verbatim>\<open>xs[start:]\<close>: a negative start counts from the end.\<close>

definition slice_from :: "int \<Rightarrow> 'a list \<Rightarrow> 'a list" where
  "slice_from start xs =
     (let n = int (length xs);
          s = (if start < 0 then max 0 (start + n) else min start n)
      in drop (nat s) xs)"

definition predict :: "classifier \<Rightarrow> real list list \<Rightarrow> py_error + string \<times> real" where
  "predict clf sequence =
     (case session clf of
        None \<Rightarrow> Inl RuntimeError
      | Some run \<Rightarrow>
          (case normalise (run sequence) of
             Inl e \<Rightarrow> Inl e
           | Inr probs \<Rightarrow>
               if probs = [] then Inl ValueError
               else let pred_idx = argmax probs
                    in if pred_idx < length (labels clf)
                       then Inr (labels clf ! pred_idx, probs ! pred_idx)
                       else Inl IndexError))"

definition predict_top_k ::
  "classifier \<Rightarrow> real list list \<Rightarrow> int \<Rightarrow> py_error + (string \<times> real) list" where
  "predict_top_k clf sequence k =
     (case session clf of
        None \<Rightarrow> Inl RuntimeError
      | Some run \<Rightarrow>
          (case normalise (run sequence) of
             Inl e \<Rightarrow> Inl e
           | Inr probs \<Rightarrow>
               let top_indices = rev (slice_from (- k) (argsort probs))
               in if list_all (\<lambda>i. i < length (labels clf)) top_indices
                  then Inr (map (\<lambda>i. (labels clf ! i, probs ! i)) top_indices)
                  else Inl IndexError))"

section \<open>CameraManager: the adaptive rate step (src/vision/camera.py)\<close>

record camera_manager =
  target_fps :: real
  min_fps :: real
  current_fps :: real

definition py_div :: "real \<Rightarrow> real \<Rightarrow> py_error + real" where
  "py_div a b = (if b = 0 then Inl ZeroDivisionError else Inr (a / b))"

definition adapt_frame_rate :: "camera_manager \<Rightarrow> real \<Rightarrow> py_error + real" where
  "adapt_frame_rate cam current_interval =
     (if current_fps cam < min_fps cam
      then (case py_div 1 (min_fps cam) of
              Inl e \<Rightarrow> Inl e
            | Inr ceiling_interval \<Rightarrow> Inr (min (current_interval * 1.1) ceiling_interval))
      else if current_fps cam > target_fps cam * 0.95
      then (case py_div 1 (target_fps cam) of
              Inl e \<Rightarrow> Inl e
            | Inr floor_interval \<Rightarrow> Inr (max (current_interval * 0.95) floor_interval))
      else Inr current_interval)"

section \<open>The frame-processing path (src/server.py, process\_frame)\<close>

text \<open>
  The application state holds the pipeline stages that \<^verbatim>\<open>create_app\<close> builds.  The
  landmark extractor is an external collaborator: a function from a decoded frame to a
  landmark vector, or \<open>None\<close> when nothing is detected.  The argument of
  \<open>process_frame\<close> is the result of decoding the frame data (\<open>None\<close> when
  \<^verbatim>\<open>cv2.imdecode\<close> returns \<^verbatim>\<open>None\<close>).  An exception leaves the state as it was when
  it was raised.  The first argument stands for the floating-point operations of the
  confidence that the classifier hands to the filter.
\<close>

record 'f app_state =
  landmark_extractor :: "'f \<Rightarrow> real list option"
  temporal_buffer :: temporal_buffer
  classifier :: classifier
  confidence_filter :: confidence_filter

datatype frame_result =
    NoDetection
  | Buffering
  | LowConfidence "real list"
  | Recognition string real "real list"

definition process_frame ::
  "float_ops \<Rightarrow> 'f app_state \<Rightarrow> 'f option
     \<Rightarrow> (py_error + frame_result option) \<times> 'f app_state" where
  "process_frame fl app frame =
     (case frame of
        None \<Rightarrow> (Inr None, app)
      | Some fr \<Rightarrow>
          (case landmark_extractor app fr of
             None \<Rightarrow> (Inr (Some NoDetection), app)
           | Some landmarks \<Rightarrow>
               let app1 = app\<lparr>temporal_buffer := add (temporal_buffer app) landmarks\<rparr>
               in (case get_sequence (temporal_buffer app1) of
                     Inl e \<Rightarrow> (Inl e, app1)
                   | Inr None \<Rightarrow> (Inr (Some Buffering), app1)
                   | Inr (Some sequence) \<Rightarrow>
                       (case predict (classifier app1) sequence of
                          Inl e \<Rightarrow> (Inl e, app1)
                        | Inr (prediction, confidence) \<Rightarrow>
                            let r = filter_conf fl (confidence_filter app1) prediction confidence;
                                app2 = app1\<lparr>confidence_filter := snd r\<rparr>
                            in (case fst r of
                                  None \<Rightarrow> (Inr (Some (LowConfidence landmarks)), app2)
                                | Some filtered_prediction \<Rightarrow>
                                    (Inr (Some (Recognition filtered_prediction confidence
                                                  landmarks)), app2))))))"

text \<open>
  A concrete pipeline used in the examples below: a window of one frame, an extractor
  that always finds the landmark vector \<open>[1]\<close>, and a backend that always answers
  the distribution \<open>[0.05, 0.95]\<close> over the labels \<open>no\<close> and \<open>yes\<close>.
\<close>

definition example_classifier :: classifier where
  "example_classifier = \<lparr>session = Some (\<lambda>w. [0.05, 0.95]), labels = [''no'', ''yes'']\<rparr>"

definition example_app :: "nat app_state" where
  "example_app =
     \<lparr>landmark_extractor = (\<lambda>fr. Some [1]),
      temporal_buffer = TemporalBuffer 1,
      classifier = example_classifier,
      confidence_filter = ConfidenceFilter 0.7 0.3\<rparr>"

section \<open>Facts about bounded deques\<close>

lemma deque_append_simps [simp]:
  "maxlen (deque_append d x) = maxlen d"
  "items (deque_append d x) =
     (if length (items d) + 1 > maxlen d then tl (items d @ [x]) else items d @ [x])"
  by (simp_all add: deque_append_def Let_def)

lemma new_deque_simps [simp]:
  "maxlen (new_deque n) = n"
  "items (new_deque n) = []"
  by (simp_all add: new_deque_def)

lemma deque_clear_simps [simp]:
  "maxlen (deque_clear d) = maxlen d"
  "items (deque_clear d) = []"
  by (simp_all add: deque_clear_def)

section \<open>ConfidenceFilter: the threshold gate\<close>

text \<open>
  C1 (as stated, refuted).  A confidence below the threshold is not always rejected:
  the gate compares the smoothed confidence.  After \<open>(''yes'', 0.95)\<close> has been
  accepted by a fresh filter (threshold 0.7, smoothing 0.3), the call with
  \<open>(''yes'', 0.6)\<close> has the smoothed confidence \<open>0.3 * 0.6 + 0.7 * 0.95 = 0.845\<close>
  and returns the label, although \<open>0.6 < 0.7\<close>.
\<close>

theorem filter_below_threshold_counterexample:
  "(0.6::real)
     < threshold (snd (filter_conf exact_ops (ConfidenceFilter 0.7 0.3) ''yes'' 0.95))
   \<and> fst (filter_conf exact_ops
            (snd (filter_conf exact_ops (ConfidenceFilter 0.7 0.3) ''yes'' 0.95)) ''yes'' 0.6)
       = Some ''yes''"
  by (simp add: filter_conf_def ConfidenceFilter_def smooth_confidence_def is_stable_def
        exact_ops_def Let_def)

text \<open>
  C1 (amended).  Every call whose smoothed confidence, as the filter computes it,
  compares below the threshold, as converted to the type of the confidence, returns
  none, whatever the history and the last accepted state are.
\<close>

theorem filter_rejects_smoothed_below_threshold:
  "smooth_confidence fl cf prediction confidence < as_confidence fl (threshold cf)
   \<Longrightarrow> fst (filter_conf fl cf prediction confidence) = None"
  by (simp add: filter_conf_def Let_def)

text \<open>
  C1 (amended), where the blend is taken.  A filter with threshold 0.5 and smoothing
  0.5 has accepted \<open>(''yes'', 0.5)\<close>; the call \<open>(''yes'', 0.25)\<close> has the smoothed
  confidence \<open>0.5 * 0.25 + 0.5 * 0.5 = 0.375\<close> and returns none.  All values are
  binary fractions, so no operation rounds.
\<close>

theorem filter_rejects_smoothed_below_threshold_witness:
  "last_prediction (snd (filter_conf exact_ops (ConfidenceFilter 0.5 0.5) ''yes'' 0.5))
     = Some ''yes''
   \<and> smooth_confidence exact_ops
        (snd (filter_conf exact_ops (ConfidenceFilter 0.5 0.5) ''yes'' 0.5)) ''yes'' 0.25
       = 0.375
   \<and> smooth_confidence exact_ops
        (snd (filter_conf exact_ops (ConfidenceFilter 0.5 0.5) ''yes'' 0.5)) ''yes'' 0.25
       < as_confidence exact_ops
           (threshold (snd (filter_conf exact_ops (ConfidenceFilter 0.5 0.5) ''yes'' 0.5)))
   \<and> fst (filter_conf exact_ops
            (snd (filter_conf exact_ops (ConfidenceFilter 0.5 0.5) ''yes'' 0.5)) ''yes'' 0.25)
       = None"
  using filter_rejects_smoothed_below_threshold
          [of exact_ops "snd (filter_conf exact_ops (ConfidenceFilter 0.5 0.5) ''yes'' 0.5)"
              "''yes''" "0.25"]
  by (simp add: filter_conf_def ConfidenceFilter_def smooth_confidence_def is_stable_def
        exact_ops_def Let_def)

section \<open>ConfidenceFilter: what a rejected call changes\<close>

text \<open>
  C10.  A call that returns none leaves \<open>last_prediction\<close> and \<open>last_confidence\<close>
  (and the two thresholds) as they were, and appends the pair of the label and the
  smoothed confidence to the history, which stays within its bound.
\<close>

theorem filter_none_frame:
  assumes "fst (filter_conf fl cf prediction confidence) = None"
  shows "last_prediction (snd (filter_conf fl cf prediction confidence)) = last_prediction cf
       \<and> last_confidence (snd (filter_conf fl cf prediction confidence)) = last_confidence cf
       \<and> history (snd (filter_conf fl cf prediction confidence))
           = deque_append (history cf) (prediction, smooth_confidence fl cf prediction confidence)
       \<and> threshold (snd (filter_conf fl cf prediction confidence)) = threshold cf
       \<and> smoothing (snd (filter_conf fl cf prediction confidence)) = smoothing cf
       \<and> (length (items (history cf)) \<le> maxlen (history cf) \<longrightarrow>
            length (items (history (snd (filter_conf fl cf prediction confidence))))
              \<le> maxlen (history cf))"
  using assms by (auto simp add: filter_conf_def Let_def split: if_splits)

text \<open>C10, at a fresh filter and the rejected call \<open>(''yes'', 0.6)\<close>.\<close>

theorem filter_none_frame_witness:
  "fst (filter_conf exact_ops (ConfidenceFilter 0.7 0.3) ''yes'' 0.6) = None
   \<and> last_prediction (snd (filter_conf exact_ops (ConfidenceFilter 0.7 0.3) ''yes'' 0.6)) = None
   \<and> items (history (snd (filter_conf exact_ops (ConfidenceFilter 0.7 0.3) ''yes'' 0.6)))
       = [(''yes'', 0.6)]"
  using filter_none_frame [of exact_ops "ConfidenceFilter 0.7 0.3" "''yes''" "0.6"]
  by (simp add: filter_conf_def ConfidenceFilter_def smooth_confidence_def exact_ops_def Let_def)

section \<open>ConfidenceFilter: the stability rule\<close>

text \<open>
  The result of a call that passes the threshold test, in terms of the history after
  the append.
\<close>

lemma filter_conf_passed_gate:
  "as_confidence fl (threshold cf) \<le> smooth_confidence fl cf prediction confidence \<Longrightarrow>
   fst (filter_conf fl cf prediction confidence) =
     (if length (items (deque_append (history cf)
                 (prediction, smooth_confidence fl cf prediction confidence))) < 3
         \<or> 2 \<le> length (filter (\<lambda>e. fst e = prediction)
                   (drop (length (items (deque_append (history cf)
                             (prediction, smooth_confidence fl cf prediction confidence))) - 3)
                      (items (deque_append (history cf)
                             (prediction, smooth_confidence fl cf prediction confidence)))))
      then Some prediction else None)"
  by (simp add: filter_conf_def is_stable_def Let_def case_prod_unfold not_less)

lemma history_filter_conf:
  "history (snd (filter_conf fl cf p c))
     = deque_append (history cf) (p, smooth_confidence fl cf p c)"
  by (simp add: filter_conf_def Let_def)

lemma stable_last_two:
  assumes "items h = ys @ [(p, a), (p, b)]"
  shows "length (items h) < 3
       \<or> 2 \<le> length (filter (\<lambda>e. fst e = p) (drop (length (items h) - 3) (items h)))"
proof (cases ys rule: rev_cases)
  case Nil
  then show ?thesis using assms by simp
next
  case (snoc zs z)
  then show ?thesis using assms by simp
qed

lemma one_append:
  "items (deque_append d x) = [] \<or> (\<exists>ws. items (deque_append d x) = ws @ [x])"
  by (cases "items d") auto

lemma two_appends:
  "length (items (deque_append (deque_append d x) y)) < 3
   \<or> (\<exists>ys. items (deque_append (deque_append d x) y) = ys @ [x, y])"
proof -
  consider "items (deque_append d x) = []" | ws where "items (deque_append d x) = ws @ [x]"
    using one_append [of d x] by blast
  then show ?thesis
  proof cases
    case 1
    then show ?thesis
      by (simp del: deque_append_simps(2) add: deque_append_simps(2) [of "deque_append d x"])
  next
    case (2 ws)
    then show ?thesis
      by (cases ws)
         (simp_all del: deque_append_simps(2) add: deque_append_simps(2) [of "deque_append d x"])
  qed
qed

text \<open>
  After two calls with the label \<open>p\<close>, a third call with \<open>p\<close> that passes the
  threshold test is accepted, whatever the two calls returned.
\<close>

lemma filter_third_repeat:
  assumes "cf1 = snd (filter_conf fl cf p c1)" and "cf2 = snd (filter_conf fl cf1 p c2)"
    and "as_confidence fl (threshold cf2) \<le> smooth_confidence fl cf2 p c3"
  shows "fst (filter_conf fl cf2 p c3) = Some p"
proof -
  let ?h = "deque_append (history cf2) (p, smooth_confidence fl cf2 p c3)"
  have "history cf2 = deque_append (history cf1) (p, smooth_confidence fl cf1 p c2)"
    using assms(2) by (simp add: history_filter_conf)
  then have "length (items ?h) < 3
      \<or> (\<exists>ys. items ?h = ys @ [(p, smooth_confidence fl cf1 p c2),
                                 (p, smooth_confidence fl cf2 p c3)])"
    using two_appends [of "history cf1" "(p, smooth_confidence fl cf1 p c2)"
                          "(p, smooth_confidence fl cf2 p c3)"]
    by simp
  then have "length (items ?h) < 3
       \<or> 2 \<le> length (filter (\<lambda>e. fst e = p) (drop (length (items ?h) - 3) (items ?h)))"
  proof (elim disjE exE)
    fix ys
    assume "items ?h = ys @ [(p, smooth_confidence fl cf1 p c2),
                             (p, smooth_confidence fl cf2 p c3)]"
    then show ?thesis by (rule stable_last_two)
  qed simp
  then show ?thesis
    using filter_conf_passed_gate [OF assms(3)] by simp
qed

text \<open>
  C8.  A call that passes the threshold test returns its label exactly when the
  history, the entry of this call included, either has fewer than three entries or has
  the label in at least two of its last three entries; otherwise it returns none.  In
  particular, when the two preceding calls carried the same label and this call passes
  the threshold test, the call returns the label.
\<close>

theorem filter_stability:
  "(as_confidence fl (threshold cf) \<le> smooth_confidence fl cf prediction confidence \<longrightarrow>
      fst (filter_conf fl cf prediction confidence) =
        (if length (items (deque_append (history cf)
                    (prediction, smooth_confidence fl cf prediction confidence))) < 3
            \<or> 2 \<le> length (filter (\<lambda>e. fst e = prediction)
                      (drop (length (items (deque_append (history cf)
                                (prediction, smooth_confidence fl cf prediction confidence))) - 3)
                         (items (deque_append (history cf)
                                (prediction, smooth_confidence fl cf prediction confidence)))))
         then Some prediction else None))
   \<and> (cf = snd (filter_conf fl (snd (filter_conf fl cf0 prediction c1)) prediction c2)
        \<and> as_confidence fl (threshold cf) \<le> smooth_confidence fl cf prediction confidence
      \<longrightarrow> fst (filter_conf fl cf prediction confidence) = Some prediction)"
  using filter_conf_passed_gate [of fl cf prediction confidence]
        filter_third_repeat [of "snd (filter_conf fl cf0 prediction c1)" fl cf0 prediction c1
                               cf c2 confidence]
  by blast

text \<open>
  C8, at a fresh filter (threshold 0.5, smoothing 0.5) and three calls with
  \<open>(''yes'', 0.75)\<close>: every smoothed confidence is 0.75, and the third call returns
  the label.  After three calls with three different labels the third call passes the
  threshold test and returns none: its label is in one of the last three entries only.
\<close>

theorem filter_stability_witness:
  "as_confidence exact_ops
     (threshold (snd (filter_conf exact_ops
                        (snd (filter_conf exact_ops (ConfidenceFilter 0.5 0.5) ''yes'' 0.75))
                        ''yes'' 0.75)))
     \<le> smooth_confidence exact_ops
          (snd (filter_conf exact_ops
                  (snd (filter_conf exact_ops (ConfidenceFilter 0.5 0.5) ''yes'' 0.75))
                  ''yes'' 0.75)) ''yes'' 0.75
   \<and> fst (filter_conf exact_ops
            (snd (filter_conf exact_ops
                    (snd (filter_conf exact_ops (ConfidenceFilter 0.5 0.5) ''yes'' 0.75))
                    ''yes'' 0.75)) ''yes'' 0.75) = Some ''yes''
   \<and> fst (filter_conf exact_ops
            (snd (filter_conf exact_ops
                    (snd (filter_conf exact_ops (ConfidenceFilter 0.5 0.5) ''a'' 0.75))
                    ''b'' 0.75)) ''c'' 0.75) = None"
  using filter_stability
          [of exact_ops
              "snd (filter_conf exact_ops
                      (snd (filter_conf exact_ops (ConfidenceFilter 0.5 0.5) ''yes'' 0.75))
                      ''yes'' 0.75)" "''yes''" "0.75" "ConfidenceFilter 0.5 0.5" "0.75" "0.75"]
  by (simp add: filter_conf_def ConfidenceFilter_def smooth_confidence_def is_stable_def
        exact_ops_def Let_def)

section \<open>GestureSmoother: reset\<close>

lemma reset_keeps_last_output_time:
  "last_output_time (reset s) = last_output_time s"
  by (simp add: reset_def)

text \<open>
  C2 (the code at the failing input).  \<open>reset\<close> leaves \<open>last_output_time\<close> as it was.
  A fresh smoother (minimum duration 0.3, cooldown 0.5) that sees \<open>''b''\<close> at 100.1 and
  100.45 emits it.  A smoother that emitted \<open>''a''\<close> at time 100 and was then reset
  does not: the emission before the reset still counts in the cooldown check.
\<close>

theorem reset_cooldown_divergence:
  "fst (step (snd (step (GestureSmoother 0.3 0.5) (''b'', 0.9, 100.1))) (''b'', 0.9, 100.45))
     = Some (''b'', 0.9)
   \<and> fst (step (snd (step (reset (final (GestureSmoother 0.3 0.5)
                                      [(''a'', 0.9, 99.5), (''a'', 0.9, 100)]))
                           (''b'', 0.9, 100.1))) (''b'', 0.9, 100.45))
     = None
   \<and> outputs (GestureSmoother 0.3 0.5) [(''a'', 0.9, 99.5), (''a'', 0.9, 100)]
     = [None, Some (''a'', 0.9)]"
  by (simp add: step_def update_def GestureSmoother_def reset_def Let_def)

section \<open>TemporalBuffer: vectors of another length\<close>

text \<open>
  C4 (as stated, refuted).  After the vector \<open>[1, 2]\<close> has set the feature size to 2,
  the push of the vector \<open>[3]\<close> of length 1 does not fail: the vector is in the
  buffer, where the window of the specification would raise FeatureSizeMismatch.
\<close>

theorem add_mismatch_counterexample:
  "feature_size (add (TemporalBuffer 15) [1, 2]) = Some 2
   \<and> push_spec (add (TemporalBuffer 15) [1, 2]) [3] = Inl FeatureSizeMismatch
   \<and> items (buffer (add (add (TemporalBuffer 15) [1, 2]) [3])) = [[1, 2], [3]]
   \<and> feature_size (add (add (TemporalBuffer 15) [1, 2]) [3]) = Some 2"
  by (simp add: add_def TemporalBuffer_def push_spec_def Let_def)

text \<open>
  C4 (amended).  \<open>add\<close> records the feature size from the first vector, leaves a
  recorded feature size as it is, and appends every vector to the buffer, whatever its
  length: no length is compared and no push fails.
\<close>

theorem add_accepts_any_length:
  "(feature_size tb = None \<longrightarrow> feature_size (add tb v) = Some (length v))
   \<and> (feature_size tb \<noteq> None \<longrightarrow> feature_size (add tb v) = feature_size tb)
   \<and> buffer (add tb v) = deque_append (buffer tb) v
   \<and> window_size (add tb v) = window_size tb
   \<and> (0 < maxlen (buffer tb) \<longrightarrow> items (buffer (add tb v)) \<noteq> []
         \<and> last (items (buffer (add tb v))) = v)"
  by (cases "items (buffer tb)") (auto simp add: add_def Let_def)

text \<open>C4 (amended), at the buffer holding \<open>[1, 2]\<close> and the vector \<open>[3]\<close>.\<close>

theorem add_accepts_any_length_witness:
  "feature_size (add (TemporalBuffer 15) [1, 2]) \<noteq> None
   \<and> (0::nat) < maxlen (buffer (add (TemporalBuffer 15) [1, 2]))
   \<and> feature_size (add (add (TemporalBuffer 15) [1, 2]) [3]) = Some 2
   \<and> last (items (buffer (add (add (TemporalBuffer 15) [1, 2]) [3]))) = [3]"
  using add_accepts_any_length [of "add (TemporalBuffer 15) [1, 2]" "[3]"]
  by (simp add: add_def TemporalBuffer_def Let_def)

section \<open>TemporalBuffer: the full window\<close>

lemma add_simps [simp]:
  "window_size (add tb v) = window_size tb"
  "buffer (add tb v) = deque_append (buffer tb) v"
  by (simp_all add: add_def Let_def)

lemma add_all_snoc: "add_all tb (vs @ [v]) = add (add_all tb vs) v"
  by (simp add: add_all_def)

lemma add_all_buffer:
  "window_size (add_all (TemporalBuffer n) vs) = n
   \<and> maxlen (buffer (add_all (TemporalBuffer n) vs)) = n
   \<and> items (buffer (add_all (TemporalBuffer n) vs)) = drop (length vs - n) vs"
proof (induction vs rule: rev_induct)
  case Nil
  show ?case by (simp add: add_all_def TemporalBuffer_def)
next
  case (snoc v vs)
  show ?case
  proof (cases "length vs < n")
    case True
    then show ?thesis using snoc by (simp add: add_all_snoc)
  next
    case False
    then have le: "n \<le> length vs" by simp
    show ?thesis
    proof (cases "n = 0")
      case True
      then show ?thesis using snoc by (simp add: add_all_snoc)
    next
      case False
      then have "drop (length vs - n) vs \<noteq> []" using le by simp
      then have "tl (drop (length vs - n) vs @ [v]) = drop (Suc (length vs - n)) vs @ [v]"
        by (simp add: drop_Suc tl_drop)
      moreover have "Suc (length vs) - n = Suc (length vs - n)" using le by simp
      ultimately show ?thesis using snoc le \<open>n \<noteq> 0\<close> by (simp add: add_all_snoc)
    qed
  qed
qed

lemma np_array_consistent:
  "\<forall>v\<in>set rows. length v = m \<Longrightarrow> np_array rows = Inr rows"
  by (cases rows) (auto simp add: np_array_def list_all_iff)

text \<open>
  C7.  After any sequence of pushes into a fresh buffer of window size \<open>n\<close>, the
  buffer holds at most \<open>n\<close> vectors (the last \<open>n\<close> pushed); \<open>get_sequence\<close>
  returns none while fewer than \<open>n\<close> vectors have been pushed, and from the \<open>n\<close>-th
  push of vectors of one length on it returns the buffer's content.  \<open>get_sequence\<close>
  is a function of the buffer and changes nothing.
\<close>

theorem window_full_after_pushes:
  "length (items (buffer (add_all (TemporalBuffer n) vs))) \<le> n
   \<and> items (buffer (add_all (TemporalBuffer n) vs)) = drop (length vs - n) vs
   \<and> (length vs < n \<longrightarrow> get_sequence (add_all (TemporalBuffer n) vs) = Inr None)
   \<and> (n \<le> length vs \<and> (\<forall>v\<in>set vs. length v = m) \<longrightarrow>
        get_sequence (add_all (TemporalBuffer n) vs) = Inr (Some (drop (length vs - n) vs)))"
proof -
  have b: "window_size (add_all (TemporalBuffer n) vs) = n"
      "items (buffer (add_all (TemporalBuffer n) vs)) = drop (length vs - n) vs"
    using add_all_buffer [of n vs] by simp_all
  have "n \<le> length vs \<Longrightarrow> \<forall>v\<in>set vs. length v = m \<Longrightarrow>
        get_sequence (add_all (TemporalBuffer n) vs) = Inr (Some (drop (length vs - n) vs))"
  proof -
    assume le: "n \<le> length vs" and c: "\<forall>v\<in>set vs. length v = m"
    have "\<forall>v\<in>set (drop (length vs - n) vs). length v = m"
      using c by (meson in_set_dropD)
    then have "np_array (drop (length vs - n) vs) = Inr (drop (length vs - n) vs)"
      by (rule np_array_consistent)
    then show ?thesis using le b by (simp add: get_sequence_def)
  qed
  then show ?thesis using b by (auto simp add: get_sequence_def)
qed

text \<open>C7, at window size 2: one push gives none, three pushes give the last two.\<close>

theorem window_full_after_pushes_witness:
  "get_sequence (add_all (TemporalBuffer 2) [[1]]) = Inr None
   \<and> (2::nat) \<le> length [[1], [2], [3::real]]
   \<and> list_all (\<lambda>v. length v = 1) [[1], [2], [3::real]]
   \<and> get_sequence (add_all (TemporalBuffer 2) [[1], [2], [3]]) = Inr (Some [[2], [3]])
   \<and> length (items (buffer (add_all (TemporalBuffer 2) [[1], [2], [3]]))) \<le> 2"
  using window_full_after_pushes [of 2 "[[1], [2], [3]]" 1]
        window_full_after_pushes [of 2 "[[1]]" 1]
  by simp

section \<open>CameraManager: the adaptive rate step stays in range\<close>

text \<open>
  C9.  For a positive target rate and an interval between \<open>1 / target_fps\<close> and
  \<open>1 / min_fps\<close>, the step returns an interval in the same range; while the current
  rate is below \<open>min_fps\<close>, the result is the interval times 1.1 capped at
  \<open>1 / min_fps\<close>, and it is not smaller than the interval.
\<close>

theorem adapt_frame_rate_in_range:
  assumes "0 < target_fps cam"
    and "1 / target_fps cam \<le> interval" and "interval \<le> 1 / min_fps cam"
  shows "\<exists>y. adapt_frame_rate cam interval = Inr y
           \<and> 1 / target_fps cam \<le> y \<and> y \<le> 1 / min_fps cam
           \<and> (current_fps cam < min_fps cam \<longrightarrow>
                y = min (interval * 1.1) (1 / min_fps cam) \<and> interval \<le> y)"
proof -
  have ipos: "0 < interval" using assms(1,2)
    by (meson divide_pos_pos less_le_trans zero_less_one)
  then have "0 < 1 / min_fps cam" using assms(3) by linarith
  then have mpos: "0 < min_fps cam" by simp
  have le: "1 / target_fps cam \<le> 1 / min_fps cam" using assms(2,3) by linarith
  show ?thesis
    using ipos mpos assms le
    by (auto simp add: adapt_frame_rate_def py_div_def min_def max_def)
qed

text \<open>C9, at target 30, minimum 15, current rate 10 and the interval 1/30.\<close>

theorem adapt_frame_rate_in_range_witness:
  "(0::real) < target_fps \<lparr>target_fps = 30, min_fps = 15, current_fps = 10\<rparr>
   \<and> 1 / target_fps \<lparr>target_fps = 30, min_fps = 15, current_fps = 10\<rparr> \<le> (1 / 30 :: real)
   \<and> (1 / 30 :: real) \<le> 1 / min_fps \<lparr>target_fps = 30, min_fps = 15, current_fps = 10\<rparr>
   \<and> adapt_frame_rate \<lparr>target_fps = 30, min_fps = 15, current_fps = 10\<rparr> (1 / 30)
       = Inr (11 / 300)"
  using adapt_frame_rate_in_range [of "\<lparr>target_fps = 30, min_fps = 15, current_fps = 10\<rparr>" "1 / 30"]
  by (simp add: adapt_frame_rate_def py_div_def)

section \<open>GestureClassifier: the order of the top-k predictions\<close>

text \<open>
  Inserting an index smaller than all indices of a list that is ordered by value, ties
  by index, keeps that order; so the stable sort of the ascending indices is ordered by
  value, ties by ascending index.
\<close>

lemma set_insort_key_any: "set (insort_key f x ys) = insert x (set ys)"
  by (induction ys) auto

lemma insort_key_tie_order:
  "sorted_wrt (\<lambda>i j. f i < f j \<or> (f i = f j \<and> i < j)) ys \<Longrightarrow> \<forall>y\<in>set ys. x < y \<Longrightarrow>
   sorted_wrt (\<lambda>i j. f i < f j \<or> (f i = f j \<and> i < j)) (insort_key f x ys)"
  for f :: "nat \<Rightarrow> real"
proof (induction ys)
  case Nil
  then show ?case by simp
next
  case (Cons y ys)
  show ?case
  proof (cases "f x \<le> f y")
    case True
    have "\<forall>z\<in>set (y # ys). f x < f z \<or> (f x = f z \<and> x < z)"
    proof
      fix z assume z: "z \<in> set (y # ys)"
      then have "f y \<le> f z" using Cons.prems(1) by auto
      then have "f x \<le> f z" using True by simp
      moreover have "x < z" using Cons.prems(2) z by blast
      ultimately show "f x < f z \<or> (f x = f z \<and> x < z)" by auto
    qed
    then show ?thesis using True Cons.prems(1) by simp
  next
    case False
    then have "sorted_wrt (\<lambda>i j. f i < f j \<or> (f i = f j \<and> i < j)) (insort_key f x ys)"
      using Cons by simp
    then show ?thesis using False Cons.prems(1) by (auto simp add: set_insort_key_any)
  qed
qed

lemma sort_key_tie_order:
  "sorted_wrt (<) xs \<Longrightarrow>
   sorted_wrt (\<lambda>i j. f i < f j \<or> (f i = f j \<and> i < j)) (sort_key f xs)"
  for f :: "nat \<Rightarrow> real"
proof (induction xs)
  case Nil
  then show ?case by simp
next
  case (Cons x xs)
  then show ?case by (simp add: insort_key_tie_order)
qed

lemma argsort_tie_order:
  "sorted_wrt (\<lambda>i j. probs ! i < probs ! j \<or> (probs ! i = probs ! j \<and> i < j)) (argsort probs)"
  unfolding argsort_def by (rule sort_key_tie_order) (simp add: sorted_wrt_upt)

lemma set_argsort: "set (argsort probs) = {0..<length probs}"
  by (simp add: argsort_def)

lemma length_argsort: "length (argsort probs) = length probs"
  by (simp add: argsort_def)

lemma length_slice_from_neg:
  "1 \<le> k \<Longrightarrow> length (slice_from (- k) xs) = min (nat k) (length xs)"
  by (auto simp add: slice_from_def Let_def)

lemma slice_from_is_drop: "\<exists>m. slice_from start xs = drop m xs"
  by (auto simp add: slice_from_def Let_def)

lemma top_indices_props:
  "sorted_wrt (\<lambda>i j. probs ! j < probs ! i \<or> (probs ! j = probs ! i \<and> j < i))
     (rev (slice_from (- k) (argsort probs)))
   \<and> set (rev (slice_from (- k) (argsort probs))) \<subseteq> {0..<length probs}"
proof -
  obtain m where m: "slice_from (- k) (argsort probs) = drop m (argsort probs)"
    using slice_from_is_drop by blast
  have "sorted_wrt (\<lambda>i j. probs ! i < probs ! j \<or> (probs ! i = probs ! j \<and> i < j))
          (drop m (argsort probs))"
    using argsort_tie_order by (rule sorted_wrt_drop)
  moreover have "set (drop m (argsort probs)) \<subseteq> {0..<length probs}"
    using set_argsort [of probs] set_drop_subset [of m "argsort probs"] by simp
  ultimately show ?thesis by (simp add: m sorted_wrt_rev)
qed

text \<open>
  C5 (as stated, refuted).  With \<open>k = 0\<close> the slice \<^verbatim>\<open>[-0:]\<close> is the whole array and
  the call returns two pairs, more than \<open>k\<close>.  With the two equal probabilities
  \<open>[0.5, 0.5]\<close> and \<open>k = 2\<close> the pair of index 1 comes before the pair of index 0:
  reversing the ascending sort puts equal probabilities in descending index order.
\<close>

theorem predict_top_k_counterexample:
  "predict_top_k \<lparr>session = Some (\<lambda>w. [0.6, 0.4]), labels = [''a'', ''b'']\<rparr> [] 0
     = Inr [(''a'', 0.6), (''b'', 0.4)]
   \<and> predict_top_k \<lparr>session = Some (\<lambda>w. [0.5, 0.5]), labels = [''a'', ''b'']\<rparr> [] 2
     = Inr [(''b'', 0.5), (''a'', 0.5)]"
  by (simp add: predict_top_k_def normalise_def isclose_def argsort_def slice_from_def Let_def)

text \<open>
  C5 (amended).  With a loaded model, a label for every probability and \<open>k \<ge> 1\<close>,
  \<open>predict_top_k\<close> returns the pairs of \<open>min k n\<close> indices, in descending order
  of probability, equal probabilities in descending order of their index.
\<close>

theorem predict_top_k_order:
  assumes "session clf = Some run" and "normalise (run sequence) = Inr probs"
    and "length probs \<le> length (labels clf)" and "1 \<le> k"
  shows "\<exists>top_indices.
           predict_top_k clf sequence k
             = Inr (map (\<lambda>i. (labels clf ! i, probs ! i)) top_indices)
         \<and> length top_indices = min (nat k) (length probs)
         \<and> sorted_wrt (\<lambda>i j. probs ! j < probs ! i \<or> (probs ! j = probs ! i \<and> j < i))
              top_indices
         \<and> sorted_wrt (\<lambda>a b. b \<le> a) (map (\<lambda>i. probs ! i) top_indices)"
proof -
  let ?top = "rev (slice_from (- k) (argsort probs))"
  have p: "sorted_wrt (\<lambda>i j. probs ! j < probs ! i \<or> (probs ! j = probs ! i \<and> j < i)) ?top"
    and sub: "set ?top \<subseteq> {0..<length probs}"
    using top_indices_props [of probs k] by simp_all
  have "list_all (\<lambda>i. i < length (labels clf)) ?top"
    using sub assms(3) by (auto simp add: list_all_iff)
  then have "predict_top_k clf sequence k = Inr (map (\<lambda>i. (labels clf ! i, probs ! i)) ?top)"
    using assms(1,2) by (simp add: predict_top_k_def Let_def)
  moreover have "length ?top = min (nat k) (length probs)"
    using assms(4) by (simp add: length_slice_from_neg length_argsort)
  moreover have "sorted_wrt (\<lambda>a b. b \<le> a) (map (\<lambda>i. probs ! i) ?top)"
    unfolding sorted_wrt_map by (rule sorted_wrt_mono_rel [OF _ p]) auto
  ultimately show ?thesis using p by blast
qed

text \<open>C5 (amended), at the distribution \<open>[0.2, 0.5, 0.3]\<close> and \<open>k = 2\<close>.\<close>

theorem predict_top_k_order_witness:
  "session \<lparr>session = Some (\<lambda>w. [0.2, 0.5, 0.3]), labels = [''a'', ''b'', ''c'']\<rparr>
     = Some (\<lambda>w. [0.2, 0.5, 0.3])
   \<and> normalise [0.2, 0.5, 0.3] = Inr [0.2, 0.5, 0.3]
   \<and> predict_top_k \<lparr>session = Some (\<lambda>w. [0.2, 0.5, 0.3]), labels = [''a'', ''b'', ''c'']\<rparr> [] 2
     = Inr [(''b'', 0.5), (''c'', 0.3)]"
  using predict_top_k_order
    [of "\<lparr>session = Some (\<lambda>w. [0.2, 0.5, 0.3]), labels = [''a'', ''b'', ''c'']\<rparr>"
        "\<lambda>w. [0.2, 0.5, 0.3]" "[]" "[0.2, 0.5, 0.3]" 2]
  by (simp add: predict_top_k_def normalise_def isclose_def argsort_def slice_from_def Let_def)

section \<open>The frame-processing path has no debouncer\<close>

lemma example_predict:
  "predict example_classifier w = Inr (''yes'', 0.95)"
  by (simp add: example_classifier_def predict_def normalise_def isclose_def argmax_def)

text \<open>
  C3 (as stated, refuted).  The first frame of the example pipeline already yields a
  recognition event for \<open>yes\<close>, and so does the next frame, whatever the time
  between the two: \<open>process_frame\<close> neither calls a smoother nor reads a clock.  A
  \<open>GestureSmoother\<close> (minimum duration 0.3, cooldown 0.5) fed the same two accepted
  predictions 50 ms apart emits nothing.
\<close>

theorem process_frame_counterexample:
  "fst (process_frame exact_ops example_app (Some 0))
     = Inr (Some (Recognition ''yes'' 0.95 [1]))
   \<and> fst (process_frame exact_ops (snd (process_frame exact_ops example_app (Some 0))) (Some 0))
       = Inr (Some (Recognition ''yes'' 0.95 [1]))
   \<and> outputs (GestureSmoother 0.3 0.5) [(''yes'', 0.95, 100), (''yes'', 0.95, 100.05)]
       = [None, None]"
  by (simp add: process_frame_def example_app_def example_predict TemporalBuffer_def
        get_sequence_def np_array_def filter_conf_def ConfidenceFilter_def exact_ops_def
        smooth_confidence_def is_stable_def step_def update_def GestureSmoother_def Let_def)

text \<open>
  C3 (amended).  \<open>process_frame\<close> returns a recognition event exactly when the frame
  decodes, the extractor finds landmarks, the window is full, the classifier answers,
  and the confidence filter accepts the prediction; the event carries the accepted
  label and the classifier's confidence.
\<close>

theorem process_frame_recognition_iff:
  "fst (process_frame fl app frame) = Inr (Some (Recognition p c lm)) \<longleftrightarrow>
     (\<exists>fr sequence q.
        frame = Some fr \<and> landmark_extractor app fr = Some lm
        \<and> get_sequence (add (temporal_buffer app) lm) = Inr (Some sequence)
        \<and> predict (classifier app) sequence = Inr (q, c)
        \<and> fst (filter_conf fl (confidence_filter app) q c) = Some p)"
  by (auto simp add: process_frame_def Let_def split: option.splits sum.splits prod.splits)

text \<open>C3 (amended), at the first frame of the example pipeline.\<close>

theorem process_frame_recognition_iff_witness:
  "landmark_extractor example_app 0 = Some [1]
   \<and> get_sequence (add (temporal_buffer example_app) [1]) = Inr (Some [[1]])
   \<and> predict (classifier example_app) [[1]] = Inr (''yes'', 0.95)
   \<and> fst (filter_conf exact_ops (confidence_filter example_app) ''yes'' 0.95) = Some ''yes''
   \<and> fst (process_frame exact_ops example_app (Some 0))
       = Inr (Some (Recognition ''yes'' 0.95 [1]))"
  using process_frame_recognition_iff [of exact_ops example_app "Some 0" "''yes''" "0.95" "[1]"]
  by (simp add: example_app_def example_predict TemporalBuffer_def
        get_sequence_def np_array_def filter_conf_def ConfidenceFilter_def exact_ops_def
        smooth_confidence_def is_stable_def Let_def)

section \<open>GestureSmoother: what a session of updates guarantees\<close>

lemma final_snoc: "final s (xs @ [x]) = snd (step (final s xs) x)"
  by (induction xs arbitrary: s) simp_all

lemma length_outputs [simp]: "length (outputs s xs) = length xs"
  by (induction xs arbitrary: s) simp_all

lemma outputs_nth:
  "k < length zs \<Longrightarrow> outputs s zs ! k = fst (step (final s (take k zs)) (zs ! k))"
proof (induction zs arbitrary: s k)
  case Nil
  then show ?case by simp
next
  case (Cons z zs)
  then show ?case by (cases k) simp_all
qed

lemma outputs_nth_at:
  "k < length zs \<Longrightarrow> outputs (GestureSmoother md cd) zs ! k = output_at md cd zs k"
  by (simp add: outputs_nth output_at_def state_before_def)

lemma state_before_0: "state_before md cd zs 0 = GestureSmoother md cd"
  by (simp add: state_before_def)

lemma state_before_Suc:
  "k < length zs \<Longrightarrow>
   state_before md cd zs (Suc k) = snd (step (state_before md cd zs k) (zs ! k))"
  by (simp add: state_before_def take_Suc_conv_app_nth final_snoc)

lemma step_Some:
  "fst (step t x) = Some (l, c) \<Longrightarrow>
     l = obs_label x \<and> current_gesture t = Some l
     \<and> min_duration t \<le> obs_time x - gesture_start_time t
     \<and> cooldown t \<le> obs_time x - last_output_time t
     \<and> (items (output_history t) = [] \<or> fst (last (items (output_history t))) \<noteq> l)"
  by (auto simp add: step_def update_def obs_label_def obs_time_def Let_def split: if_splits)

lemma step_config:
  "min_duration (snd (step t x)) = min_duration t"
  "cooldown (snd (step t x)) = cooldown t"
  "maxlen (output_history (snd (step t x))) = maxlen (output_history t)"
  "current_gesture (snd (step t x)) = Some (obs_label x)"
  "gesture_start_time (snd (step t x))
     = (if current_gesture t = Some (obs_label x) then gesture_start_time t else obs_time x)"
  by (auto simp add: step_def update_def obs_label_def obs_time_def Let_def)

lemma step_None:
  "fst (step t x) = None \<Longrightarrow>
     last_output_time (snd (step t x)) = last_output_time t
     \<and> output_history (snd (step t x)) = output_history t"
  by (auto simp add: step_def update_def Let_def split: if_splits)

lemma step_emit:
  "fst (step t x) \<noteq> None \<Longrightarrow> 0 < maxlen (output_history t) \<Longrightarrow>
     last_output_time (snd (step t x)) = obs_time x
     \<and> items (output_history (snd (step t x))) \<noteq> []
     \<and> fst (last (items (output_history (snd (step t x))))) = obs_label x"
  by (cases "items (output_history t)")
     (auto simp add: step_def update_def obs_label_def obs_time_def Let_def split: if_splits)


lemma state_before_config:
  "k \<le> length zs \<Longrightarrow>
   min_duration (state_before md cd zs k) = md \<and> cooldown (state_before md cd zs k) = cd"
proof (induction k)
  case 0
  show ?case by (simp add: state_before_0 GestureSmoother_def)
next
  case (Suc k)
  then show ?case by (simp add: state_before_Suc step_config)
qed

lemma episode_inv_holds: "k \<le> length zs \<Longrightarrow> episode_inv md cd zs k"
proof (induction k)
  case 0
  show ?case by (simp add: episode_inv_def state_before_0 GestureSmoother_def)
next
  case (Suc k)
  then have k: "k < length zs" and ih: "episode_inv md cd zs k" by simp_all
  let ?t = "state_before md cd zs k"
  have cur: "current_gesture (state_before md cd zs (Suc k)) = Some (obs_label (zs ! k))"
    using k by (simp add: state_before_Suc step_config)
  have start: "gesture_start_time (state_before md cd zs (Suc k))
     = (if current_gesture ?t = Some (obs_label (zs ! k)) then gesture_start_time ?t
        else obs_time (zs ! k))"
    using k by (simp add: state_before_Suc step_config)
  have d: "(k = 0 \<and> current_gesture ?t = None)
      \<or> (0 < k
         \<and> current_gesture ?t = Some (obs_label (zs ! (k - 1)))
         \<and> (\<exists>j<k. gesture_start_time ?t = obs_time (zs ! j)
                  \<and> (\<forall>m. j \<le> m \<and> m < k \<longrightarrow> obs_label (zs ! m) = obs_label (zs ! (k - 1)))
                  \<and> (j = 0 \<or> obs_label (zs ! (j - 1)) \<noteq> obs_label (zs ! j))))"
    using ih unfolding episode_inv_def .
  have "\<exists>j<Suc k. gesture_start_time (state_before md cd zs (Suc k)) = obs_time (zs ! j)
          \<and> (\<forall>m. j \<le> m \<and> m < Suc k \<longrightarrow> obs_label (zs ! m) = obs_label (zs ! k))
          \<and> (j = 0 \<or> obs_label (zs ! (j - 1)) \<noteq> obs_label (zs ! j))"
  proof (cases "current_gesture ?t = Some (obs_label (zs ! k))")
    case True
    then have nn: "current_gesture ?t \<noteq> None" by simp
    have rest: "0 < k
      \<and> current_gesture ?t = Some (obs_label (zs ! (k - 1)))
      \<and> (\<exists>j<k. gesture_start_time ?t = obs_time (zs ! j)
                  \<and> (\<forall>m. j \<le> m \<and> m < k \<longrightarrow> obs_label (zs ! m) = obs_label (zs ! (k - 1)))
                  \<and> (j = 0 \<or> obs_label (zs ! (j - 1)) \<noteq> obs_label (zs ! j)))"
    proof (rule disjE [OF d])
      assume "k = 0 \<and> current_gesture ?t = None"
      then show ?thesis using nn by simp
    qed
    note pos = rest [THEN conjunct1]
      and cg = rest [THEN conjunct2, THEN conjunct1]
      and ex = rest [THEN conjunct2, THEN conjunct2]
    have "Some (obs_label (zs ! (k - 1))) = Some (obs_label (zs ! k))"
      using cg True by (rule trans [OF sym])
    then have same: "obs_label (zs ! (k - 1)) = obs_label (zs ! k)"
      by (simp only: option.inject)
    from ex obtain j where jj: "j < k \<and> gesture_start_time ?t = obs_time (zs ! j)
        \<and> (\<forall>m. j \<le> m \<and> m < k \<longrightarrow> obs_label (zs ! m) = obs_label (zs ! (k - 1)))
        \<and> (j = 0 \<or> obs_label (zs ! (j - 1)) \<noteq> obs_label (zs ! j))" ..
    note j = jj [THEN conjunct1] jj [THEN conjunct2, THEN conjunct1]
      jj [THEN conjunct2, THEN conjunct2, THEN conjunct1]
      jj [THEN conjunct2, THEN conjunct2, THEN conjunct2]
    have "\<forall>m. j \<le> m \<and> m < Suc k \<longrightarrow> obs_label (zs ! m) = obs_label (zs ! k)"
    proof (intro allI impI)
      fix m assume m: "j \<le> m \<and> m < Suc k"
      show "obs_label (zs ! m) = obs_label (zs ! k)"
      proof (cases "m = k")
        case True
        then show ?thesis by simp
      next
        case False
        then have "j \<le> m \<and> m < k" using m by simp
        then have "obs_label (zs ! m) = obs_label (zs ! (k - 1))" by (rule j(3) [rule_format])
        then show ?thesis using same by (rule trans)
      qed
    qed
    moreover have "gesture_start_time (state_before md cd zs (Suc k)) = obs_time (zs ! j)"
      using True start j(2) by simp
    moreover have "j < Suc k" using j(1) by simp
    ultimately show ?thesis using j(4) by (intro exI [of _ j] conjI)
  next
    case False
    have c: "k < Suc k" by simp
    have b: "k = 0 \<or> obs_label (zs ! (k - 1)) \<noteq> obs_label (zs ! k)"
    proof (cases "k = 0")
      case True
      then show ?thesis by simp
    next
      case nz: False
      then have "current_gesture ?t = Some (obs_label (zs ! (k - 1)))" using d by blast
      then show ?thesis using False by metis
    qed
    have a: "\<forall>m. k \<le> m \<and> m < Suc k \<longrightarrow> obs_label (zs ! m) = obs_label (zs ! k)"
      by (auto simp add: less_Suc_eq_le)
    have "gesture_start_time (state_before md cd zs (Suc k)) = obs_time (zs ! k)"
      using False start by simp
    then show ?thesis using a b c by (intro exI [of _ k] conjI)
  qed
  then show ?case using cur by (simp add: episode_inv_def)
qed

lemma emission_inv_holds: "k \<le> length zs \<Longrightarrow> emission_inv md cd zs k"
proof (induction k)
  case 0
  show ?case by (simp add: emission_inv_def state_before_0 GestureSmoother_def)
next
  case (Suc k)
  then have k: "k < length zs" and ih: "emission_inv md cd zs k" by simp_all
  let ?t = "state_before md cd zs k"
  let ?t' = "state_before md cd zs (Suc k)"
  have t': "?t' = snd (step ?t (zs ! k))" using k by (rule state_before_Suc)
  have ml: "maxlen (output_history ?t) = 10" using ih by (simp add: emission_inv_def)
  then have ml': "maxlen (output_history ?t') = 10" by (simp add: t' step_config)
  show ?case
  proof (cases "output_at md cd zs k = None")
    case True
    then have same: "last_output_time ?t' = last_output_time ?t"
        "output_history ?t' = output_history ?t"
      using step_None [of ?t "zs ! k"] by (simp_all add: t' output_at_def)
    from ih consider
        (none) "items (output_history ?t) = []" "\<forall>m<k. output_at md cd zs m = None"
      | (some) i where "i < k" "output_at md cd zs i \<noteq> None"
          "items (output_history ?t) \<noteq> []"
          "fst (last (items (output_history ?t))) = obs_label (zs ! i)"
          "last_output_time ?t = obs_time (zs ! i)"
          "\<forall>m. i < m \<and> m < k \<longrightarrow> output_at md cd zs m = None"
      by (auto simp add: emission_inv_def)
    then show ?thesis
    proof cases
      case none
      then have "\<forall>m<Suc k. output_at md cd zs m = None"
        using True by (auto simp add: less_Suc_eq)
      then show ?thesis using none(1) same ml' by (simp add: emission_inv_def)
    next
      case some
      have "\<forall>m. i < m \<and> m < Suc k \<longrightarrow> output_at md cd zs m = None"
        using some(6) True by (auto simp add: less_Suc_eq)
      then have "\<exists>i<Suc k. output_at md cd zs i \<noteq> None
                  \<and> items (output_history ?t') \<noteq> []
                  \<and> fst (last (items (output_history ?t'))) = obs_label (zs ! i)
                  \<and> last_output_time ?t' = obs_time (zs ! i)
                  \<and> (\<forall>m. i < m \<and> m < Suc k \<longrightarrow> output_at md cd zs m = None)"
        using some(1-5) same by (intro exI [of _ i]) simp
      then show ?thesis using ml' by (simp add: emission_inv_def)
    qed
  next
    case False
    then have "last_output_time ?t' = obs_time (zs ! k)
        \<and> items (output_history ?t') \<noteq> []
        \<and> fst (last (items (output_history ?t'))) = obs_label (zs ! k)"
      using step_emit [of ?t "zs ! k"] ml by (simp add: t' output_at_def)
    then have "\<exists>i<Suc k. output_at md cd zs i \<noteq> None
                  \<and> items (output_history ?t') \<noteq> []
                  \<and> fst (last (items (output_history ?t'))) = obs_label (zs ! i)
                  \<and> last_output_time ?t' = obs_time (zs ! i)
                  \<and> (\<forall>m. i < m \<and> m < Suc k \<longrightarrow> output_at md cd zs m = None)"
      using False by (intro exI [of _ k]) auto
    then show ?thesis using ml' by (simp add: emission_inv_def)
  qed
qed


lemma emitted_after_hold:
  assumes i: "i < length zs" and out: "output_at md cd zs i = Some (l, c)"
  shows "l = obs_label (zs ! i)
       \<and> (\<exists>j<i. (\<forall>m. j \<le> m \<and> m \<le> i \<longrightarrow> obs_label (zs ! m) = l)
                \<and> (j = 0 \<or> obs_label (zs ! (j - 1)) \<noteq> l)
                \<and> md \<le> obs_time (zs ! i) - obs_time (zs ! j))"
proof -
  let ?t = "state_before md cd zs i"
  have s: "l = obs_label (zs ! i) \<and> current_gesture ?t = Some l
     \<and> min_duration ?t \<le> obs_time (zs ! i) - gesture_start_time ?t
     \<and> cooldown ?t \<le> obs_time (zs ! i) - last_output_time ?t
     \<and> (items (output_history ?t) = [] \<or> fst (last (items (output_history ?t))) \<noteq> l)"
    using out unfolding output_at_def by (rule step_Some)
  note li = s [THEN conjunct1] and cur = s [THEN conjunct2, THEN conjunct1]
    and dur = s [THEN conjunct2, THEN conjunct2, THEN conjunct1]
  have md: "min_duration ?t = md" using i state_before_config [of i zs md cd] by simp
  have nn: "current_gesture ?t \<noteq> None" using cur by simp
  have d: "(i = 0 \<and> current_gesture ?t = None)
      \<or> (0 < i
         \<and> current_gesture ?t = Some (obs_label (zs ! (i - 1)))
         \<and> (\<exists>j<i. gesture_start_time ?t = obs_time (zs ! j)
                  \<and> (\<forall>m. j \<le> m \<and> m < i \<longrightarrow> obs_label (zs ! m) = obs_label (zs ! (i - 1)))
                  \<and> (j = 0 \<or> obs_label (zs ! (j - 1)) \<noteq> obs_label (zs ! j))))"
    using episode_inv_holds [of i zs md cd] i unfolding episode_inv_def by simp
  have rest: "0 < i
      \<and> current_gesture ?t = Some (obs_label (zs ! (i - 1)))
      \<and> (\<exists>j<i. gesture_start_time ?t = obs_time (zs ! j)
                  \<and> (\<forall>m. j \<le> m \<and> m < i \<longrightarrow> obs_label (zs ! m) = obs_label (zs ! (i - 1)))
                  \<and> (j = 0 \<or> obs_label (zs ! (j - 1)) \<noteq> obs_label (zs ! j)))"
  proof (rule disjE [OF d])
    assume "i = 0 \<and> current_gesture ?t = None"
    then show ?thesis using nn by simp
  qed
  note cg = rest [THEN conjunct2, THEN conjunct1] and ex = rest [THEN conjunct2, THEN conjunct2]
  have "Some (obs_label (zs ! (i - 1))) = Some l" using cg cur by (rule trans [OF sym])
  then have prev: "obs_label (zs ! (i - 1)) = l" by (simp only: option.inject)
  from ex obtain j where jj: "j < i \<and> gesture_start_time ?t = obs_time (zs ! j)
        \<and> (\<forall>m. j \<le> m \<and> m < i \<longrightarrow> obs_label (zs ! m) = obs_label (zs ! (i - 1)))
        \<and> (j = 0 \<or> obs_label (zs ! (j - 1)) \<noteq> obs_label (zs ! j))" ..
  note j = jj [THEN conjunct1] jj [THEN conjunct2, THEN conjunct1]
      jj [THEN conjunct2, THEN conjunct2, THEN conjunct1]
      jj [THEN conjunct2, THEN conjunct2, THEN conjunct2]
  have lab: "obs_label (zs ! m) = l" if "j \<le> m \<and> m \<le> i" for m
  proof (cases "m = i")
    case True
    then show ?thesis using li by simp
  next
    case False
    then have "j \<le> m \<and> m < i" using that by simp
    then have "obs_label (zs ! m) = obs_label (zs ! (i - 1))" by (rule j(3) [rule_format])
    then show ?thesis using prev by (rule trans)
  qed
  have a: "\<forall>m. j \<le> m \<and> m \<le> i \<longrightarrow> obs_label (zs ! m) = l"
    using lab by (intro allI impI)
  have "obs_label (zs ! j) = l" using j(1) by (intro lab) simp
  then have b: "j = 0 \<or> obs_label (zs ! (j - 1)) \<noteq> l" using j(4) by metis
  have c: "md \<le> obs_time (zs ! i) - obs_time (zs ! j)" using dur md j(2) by simp
  have "\<exists>j<i. (\<forall>m. j \<le> m \<and> m \<le> i \<longrightarrow> obs_label (zs ! m) = l)
                \<and> (j = 0 \<or> obs_label (zs ! (j - 1)) \<noteq> l)
                \<and> md \<le> obs_time (zs ! i) - obs_time (zs ! j)"
    using j(1) a b c by (intro exI [of _ j] conjI)
  then show ?thesis using li by (intro conjI)
qed

lemma last_emission_before:
  assumes j: "j \<le> length zs" and ij: "i < j" and out: "output_at md cd zs i \<noteq> None"
  shows "\<exists>i0. i \<le> i0 \<and> i0 < j \<and> output_at md cd zs i0 \<noteq> None
           \<and> items (output_history (state_before md cd zs j)) \<noteq> []
           \<and> fst (last (items (output_history (state_before md cd zs j)))) = obs_label (zs ! i0)
           \<and> last_output_time (state_before md cd zs j) = obs_time (zs ! i0)"
proof -
  let ?t = "state_before md cd zs j"
  have d: "(items (output_history ?t) = [] \<and> (\<forall>m<j. output_at md cd zs m = None))
         \<or> (\<exists>i<j. output_at md cd zs i \<noteq> None
                  \<and> items (output_history ?t) \<noteq> []
                  \<and> fst (last (items (output_history ?t))) = obs_label (zs ! i)
                  \<and> last_output_time ?t = obs_time (zs ! i)
                  \<and> (\<forall>m. i < m \<and> m < j \<longrightarrow> output_at md cd zs m = None))"
    using emission_inv_holds [OF j, of md cd] unfolding emission_inv_def by (rule conjunct2)
  have ex: "\<exists>i<j. output_at md cd zs i \<noteq> None
                  \<and> items (output_history ?t) \<noteq> []
                  \<and> fst (last (items (output_history ?t))) = obs_label (zs ! i)
                  \<and> last_output_time ?t = obs_time (zs ! i)
                  \<and> (\<forall>m. i < m \<and> m < j \<longrightarrow> output_at md cd zs m = None)"
  proof (rule disjE [OF d])
    assume "items (output_history ?t) = [] \<and> (\<forall>m<j. output_at md cd zs m = None)"
    then have "output_at md cd zs i = None" using ij by simp
    then show ?thesis using out by simp
  qed
  from ex obtain i0 where ii: "i0 < j \<and> output_at md cd zs i0 \<noteq> None
                  \<and> items (output_history ?t) \<noteq> []
                  \<and> fst (last (items (output_history ?t))) = obs_label (zs ! i0)
                  \<and> last_output_time ?t = obs_time (zs ! i0)
                  \<and> (\<forall>m. i0 < m \<and> m < j \<longrightarrow> output_at md cd zs m = None)" ..
  note i0 = ii [THEN conjunct1] ii [THEN conjunct2, THEN conjunct1]
    ii [THEN conjunct2, THEN conjunct2, THEN conjunct1]
    ii [THEN conjunct2, THEN conjunct2, THEN conjunct2, THEN conjunct1]
    ii [THEN conjunct2, THEN conjunct2, THEN conjunct2, THEN conjunct2, THEN conjunct1]
    ii [THEN conjunct2, THEN conjunct2, THEN conjunct2, THEN conjunct2, THEN conjunct2]
  have "i \<le> i0"
  proof (rule ccontr)
    assume "\<not> i \<le> i0"
    then have "i0 < i \<and> i < j" using ij by simp
    then have "output_at md cd zs i = None" by (rule i0(6) [rule_format])
    then show False using out by simp
  qed
  then show ?thesis using i0(1-5) by (intro exI [of _ i0] conjI)
qed


lemma emissions_apart:
  assumes srt: "sorted (map obs_time zs)" and ij: "i < j" and j: "j < length zs"
    and oi: "output_at md cd zs i \<noteq> None" and oj: "output_at md cd zs j \<noteq> None"
  shows "cd \<le> obs_time (zs ! j) - obs_time (zs ! i)"
proof -
  let ?t = "state_before md cd zs j"
  have jl: "j \<le> length zs" using j by simp
  from last_emission_before [OF jl ij oi] obtain i0 where
    i0: "i \<le> i0 \<and> i0 < j \<and> output_at md cd zs i0 \<noteq> None
           \<and> items (output_history ?t) \<noteq> []
           \<and> fst (last (items (output_history ?t))) = obs_label (zs ! i0)
           \<and> last_output_time ?t = obs_time (zs ! i0)" ..
  have le: "i \<le> i0" and lt: "i0 < j" and lot: "last_output_time ?t = obs_time (zs ! i0)"
    using i0 by simp_all
  from oj obtain l c where "output_at md cd zs j = Some (l, c)" by (cases "output_at md cd zs j") auto
  then have "fst (step ?t (zs ! j)) = Some (l, c)" by (simp add: output_at_def)
  then have sj: "l = obs_label (zs ! j) \<and> current_gesture ?t = Some l
     \<and> min_duration ?t \<le> obs_time (zs ! j) - gesture_start_time ?t
     \<and> cooldown ?t \<le> obs_time (zs ! j) - last_output_time ?t
     \<and> (items (output_history ?t) = [] \<or> fst (last (items (output_history ?t))) \<noteq> l)"
    by (rule step_Some)
  have "cooldown ?t \<le> obs_time (zs ! j) - last_output_time ?t"
    by (rule sj [THEN conjunct2, THEN conjunct2, THEN conjunct2, THEN conjunct1])
  moreover have "cooldown ?t = cd" using jl state_before_config [of j zs md cd] by simp
  moreover have "map obs_time zs ! i \<le> map obs_time zs ! i0"
    using srt le lt j by (intro sorted_nth_mono) simp_all
  then have "obs_time (zs ! i) \<le> obs_time (zs ! i0)" using le lt j by simp
  ultimately show ?thesis using lot by simp
qed

lemma no_repeat_without_change:
  assumes ij: "i < j" and j: "j < length zs"
    and oi: "output_at md cd zs i \<noteq> None" and oj: "output_at md cd zs j \<noteq> None"
    and same: "obs_label (zs ! i) = obs_label (zs ! j)"
  shows "\<exists>m. i < m \<and> m < j \<and> obs_label (zs ! m) \<noteq> obs_label (zs ! i)"
proof -
  let ?t = "state_before md cd zs j"
  have jl: "j \<le> length zs" using j by simp
  from last_emission_before [OF jl ij oi] obtain i0 where
    i0: "i \<le> i0 \<and> i0 < j \<and> output_at md cd zs i0 \<noteq> None
           \<and> items (output_history ?t) \<noteq> []
           \<and> fst (last (items (output_history ?t))) = obs_label (zs ! i0)
           \<and> last_output_time ?t = obs_time (zs ! i0)" ..
  have le: "i \<le> i0" and lt: "i0 < j" and ne: "items (output_history ?t) \<noteq> []"
    and lab: "fst (last (items (output_history ?t))) = obs_label (zs ! i0)"
    using i0 by simp_all
  from oj obtain l c where "output_at md cd zs j = Some (l, c)" by (cases "output_at md cd zs j") auto
  then have "fst (step ?t (zs ! j)) = Some (l, c)" by (simp add: output_at_def)
  then have sj: "l = obs_label (zs ! j) \<and> current_gesture ?t = Some l
     \<and> min_duration ?t \<le> obs_time (zs ! j) - gesture_start_time ?t
     \<and> cooldown ?t \<le> obs_time (zs ! j) - last_output_time ?t
     \<and> (items (output_history ?t) = [] \<or> fst (last (items (output_history ?t))) \<noteq> l)"
    by (rule step_Some)
  have "fst (last (items (output_history ?t))) \<noteq> l"
    using sj [THEN conjunct2, THEN conjunct2, THEN conjunct2, THEN conjunct2] ne by metis
  then have "fst (last (items (output_history ?t))) \<noteq> obs_label (zs ! j)"
    using sj [THEN conjunct1] by metis
  then have diff: "obs_label (zs ! i0) \<noteq> obs_label (zs ! i)" using lab same by metis
  then have "i0 \<noteq> i" by metis
  then have "i < i0" using le by simp
  then show ?thesis using lt diff by (intro exI [of _ i0] conjI)
qed

text \<open>
  C6.  In every session of \<open>update\<close> calls on a fresh smoother with non-decreasing
  clock readings: a call emits only its own label, and only when the calls since the
  start of the current run of that label (a call \<open>j\<close> before it, which is the first
  call or follows a different label) all carried the label and the run has lasted at
  least \<open>min_duration\<close>; between two emissions of the same label some call carries
  a different label; and any two emissions are at least \<open>cooldown\<close> apart.
\<close>

theorem smoother_session_guarantees:
  assumes "sorted (map obs_time zs)"
  shows "(\<forall>i l c. i < length zs \<and> outputs (GestureSmoother md cd) zs ! i = Some (l, c) \<longrightarrow>
            l = obs_label (zs ! i)
            \<and> (\<exists>j<i. (\<forall>m. j \<le> m \<and> m \<le> i \<longrightarrow> obs_label (zs ! m) = l)
                    \<and> (j = 0 \<or> obs_label (zs ! (j - 1)) \<noteq> l)
                    \<and> md \<le> obs_time (zs ! i) - obs_time (zs ! j)))
       \<and> (\<forall>i j. i < j \<and> j < length zs
               \<and> outputs (GestureSmoother md cd) zs ! i \<noteq> None
               \<and> outputs (GestureSmoother md cd) zs ! j \<noteq> None
               \<and> obs_label (zs ! i) = obs_label (zs ! j) \<longrightarrow>
            (\<exists>m. i < m \<and> m < j \<and> obs_label (zs ! m) \<noteq> obs_label (zs ! i)))
       \<and> (\<forall>i j. i < j \<and> j < length zs
               \<and> outputs (GestureSmoother md cd) zs ! i \<noteq> None
               \<and> outputs (GestureSmoother md cd) zs ! j \<noteq> None \<longrightarrow>
            cd \<le> obs_time (zs ! j) - obs_time (zs ! i))"
proof (intro conjI allI impI)
  fix i l c
  assume h: "i < length zs \<and> outputs (GestureSmoother md cd) zs ! i = Some (l, c)"
  then have i: "i < length zs" by (rule conjunct1)
  have "output_at md cd zs i = Some (l, c)"
    using h outputs_nth_at [OF i, of md cd] by simp
  with i have r: "l = obs_label (zs ! i)
       \<and> (\<exists>j<i. (\<forall>m. j \<le> m \<and> m \<le> i \<longrightarrow> obs_label (zs ! m) = l)
                \<and> (j = 0 \<or> obs_label (zs ! (j - 1)) \<noteq> l)
                \<and> md \<le> obs_time (zs ! i) - obs_time (zs ! j))"
    by (rule emitted_after_hold)
  show "l = obs_label (zs ! i)" by (rule r [THEN conjunct1])
  show "\<exists>j<i. (\<forall>m. j \<le> m \<and> m \<le> i \<longrightarrow> obs_label (zs ! m) = l)
                \<and> (j = 0 \<or> obs_label (zs ! (j - 1)) \<noteq> l)
                \<and> md \<le> obs_time (zs ! i) - obs_time (zs ! j)"
    by (rule r [THEN conjunct2])
next
  fix i j
  assume h: "i < j \<and> j < length zs
               \<and> outputs (GestureSmoother md cd) zs ! i \<noteq> None
               \<and> outputs (GestureSmoother md cd) zs ! j \<noteq> None
               \<and> obs_label (zs ! i) = obs_label (zs ! j)"
  note ij = h [THEN conjunct1] and j = h [THEN conjunct2, THEN conjunct1]
    and oi = h [THEN conjunct2, THEN conjunct2, THEN conjunct1]
    and oj = h [THEN conjunct2, THEN conjunct2, THEN conjunct2, THEN conjunct1]
    and same = h [THEN conjunct2, THEN conjunct2, THEN conjunct2, THEN conjunct2]
  have i: "i < length zs" using ij j by simp
  have "output_at md cd zs i \<noteq> None"
    using oi outputs_nth_at [OF i, of md cd] by simp
  moreover have "output_at md cd zs j \<noteq> None"
    using oj outputs_nth_at [OF j, of md cd] by simp
  moreover note same
  ultimately show "\<exists>m. i < m \<and> m < j \<and> obs_label (zs ! m) \<noteq> obs_label (zs ! i)"
    using ij j by (intro no_repeat_without_change)
next
  fix i j
  assume h: "i < j \<and> j < length zs
               \<and> outputs (GestureSmoother md cd) zs ! i \<noteq> None
               \<and> outputs (GestureSmoother md cd) zs ! j \<noteq> None"
  note ij = h [THEN conjunct1] and j = h [THEN conjunct2, THEN conjunct1]
    and oi = h [THEN conjunct2, THEN conjunct2, THEN conjunct1]
    and oj = h [THEN conjunct2, THEN conjunct2, THEN conjunct2]
  have i: "i < length zs" using ij j by simp
  have "output_at md cd zs i \<noteq> None"
    using oi outputs_nth_at [OF i, of md cd] by simp
  moreover have "output_at md cd zs j \<noteq> None"
    using oj outputs_nth_at [OF j, of md cd] by simp
  ultimately show "cd \<le> obs_time (zs ! j) - obs_time (zs ! i)"
    using assms ij j by (intro emissions_apart)
qed

text \<open>
  C6, at minimum duration 0.25 and cooldown 0.5, with clock readings that are binary
  fractions (their differences are exact in doubles): \<open>a\<close> held from 100 to 100.25 is
  emitted at 100.25, then \<open>b\<close> held from 100.5 to 100.75 is emitted at 100.75, half a
  second after \<open>a\<close>; \<open>b\<close> held on to 101.5 is not emitted again.
\<close>

theorem smoother_session_guarantees_witness:
  "sorted (map obs_time
      [(''a'', 0.75, 100), (''a'', 0.75, 100.25), (''b'', 0.75, 100.5), (''b'', 0.75, 100.75),
       (''b'', 0.75, 101.5)])
   \<and> outputs (GestureSmoother 0.25 0.5)
        [(''a'', 0.75, 100), (''a'', 0.75, 100.25), (''b'', 0.75, 100.5), (''b'', 0.75, 100.75),
         (''b'', 0.75, 101.5)]
       = [None, Some (''a'', 0.75), None, Some (''b'', 0.75), None]
   \<and> (0.25::real) \<le> obs_time (''a'', 0.75, 100.25) - obs_time (''a'', 0.75, 100)
   \<and> (0.5::real) \<le> obs_time (''b'', 0.75, 100.75) - obs_time (''a'', 0.75, 100.25)"
  using smoother_session_guarantees
    [of "[(''a'', 0.75, 100), (''a'', 0.75, 100.25), (''b'', 0.75, 100.5), (''b'', 0.75, 100.75),
          (''b'', 0.75, 101.5)]" "0.25" "0.5"]
  by (simp add: obs_time_def step_def update_def GestureSmoother_def Let_def)

end
